theory Spec2Isabelle
  imports Main "HOL-Library.Sublist"
begin

section \<open>Python string primitives used by verifier.py\<close>

text \<open>
  Python strings are modelled as \<open>string\<close> (lists of 8-bit characters). The
  models of \<open>str.title\<close>, \<open>str.lower\<close> and \<open>int\<close> below are those of
  Python on ASCII strings: a character outside \<open>A-Z\<close>, \<open>a-z\<close> is taken as
  uncased, and only the ASCII digits and the ASCII whitespace are known to \<open>int\<close>.
  On a string with other characters Python may differ (it knows more cased letters,
  digits and spaces), so a property that depends on these functions is stated for
  ASCII strings.
\<close>

definition is_ascii :: "char \<Rightarrow> bool" where
  "is_ascii c = (of_char c < (128::nat))"

definition ascii_only :: "string \<Rightarrow> bool" where
  "ascii_only s = list_all is_ascii s"

definition ascii_uppercase :: string where
  "ascii_uppercase = ''ABCDEFGHIJKLMNOPQRSTUVWXYZ''"

definition ascii_lowercase :: string where
  "ascii_lowercase = ''abcdefghijklmnopqrstuvwxyz''"

definition is_upper :: "char \<Rightarrow> bool" where
  "is_upper c = (c \<in> set ascii_uppercase)"

definition is_lower :: "char \<Rightarrow> bool" where
  "is_lower c = (c \<in> set ascii_lowercase)"

text \<open>The character class \<open>[A-Za-z]\<close> of \<open>charsRE\<close>, and a cased character of \<open>str.title\<close>.\<close>

definition is_alpha :: "char \<Rightarrow> bool" where
  "is_alpha c = (is_upper c \<or> is_lower c)"

definition lower_char :: "char \<Rightarrow> char" where
  "lower_char c = (case map_of (zip ascii_uppercase ascii_lowercase) c of
                     None \<Rightarrow> c | Some d \<Rightarrow> d)"

definition upper_char :: "char \<Rightarrow> char" where
  "upper_char c = (case map_of (zip ascii_lowercase ascii_uppercase) c of
                     None \<Rightarrow> c | Some d \<Rightarrow> d)"

text \<open>\<open>str.lower()\<close>.\<close>

definition lower :: "string \<Rightarrow> string" where
  "lower s = map lower_char s"

text \<open>
  \<open>str.title()\<close> on an ASCII string: a character that follows a cased character
  (a letter) is lower-cased, any other character is upper-cased (title-cased); uncased
  characters stay as they are.
\<close>

fun title_from :: "bool \<Rightarrow> string \<Rightarrow> string" where
  "title_from previous_is_cased [] = []"
| "title_from previous_is_cased (c # cs) =
     (if previous_is_cased then lower_char c else upper_char c) # title_from (is_alpha c) cs"

definition title :: "string \<Rightarrow> string" where
  "title s = title_from False s"

text \<open>\<open>str.replace("_", " ")\<close>.\<close>

definition replace_underscores :: "string \<Rightarrow> string" where
  "replace_underscores s = map (\<lambda>c. if c = CHR ''_'' then CHR '' '' else c) s"

text \<open>
  \<open>str.split("__")\<close>: the string is cut at the non-overlapping occurrences of the
  two-character delimiter, read from the left; the accumulator holds the current
  component reversed.
\<close>

fun split_acc :: "string \<Rightarrow> string \<Rightarrow> string list" where
  "split_acc acc [] = [rev acc]"
| "split_acc acc [c] = [rev (c # acc)]"
| "split_acc acc (c # d # cs) =
     (if c = CHR ''_'' \<and> d = CHR ''_'' then rev acc # split_acc [] cs
      else split_acc (c # acc) (d # cs))"

definition split_dunder :: "string \<Rightarrow> string list" where
  "split_dunder s = split_acc [] s"

text \<open>\<open>os.path.basename\<close>: what follows the last slash.\<close>

definition basename :: "string \<Rightarrow> string" where
  "basename p = rev (takeWhile (\<lambda>c. c \<noteq> CHR ''/'') (rev p))"

text \<open>
  \<open>os.path.splitext(p)[1]\<close>: the extension starts at the last dot of the last path
  component, unless only dots stand before it in that component.
\<close>

definition splitext_ext :: "string \<Rightarrow> string" where
  "splitext_ext p =
     (let base = basename p;
          suffix = rev (takeWhile (\<lambda>c. c \<noteq> CHR ''.'') (rev base));
          stem = take (length base - length suffix - 1) base
      in if CHR ''.'' \<notin> set base \<or> list_all (\<lambda>c. c = CHR ''.'') stem then []
         else CHR ''.'' # suffix)"

text \<open>
  \<open>int(s)\<close> on an ASCII string (of no more digits than the interpreter converts;
  4300 since Python 3.10.7): it succeeds on a string that, with the surrounding
  whitespace (space, tab, line feed, vertical tab, form feed, carriage return) removed,
  is an optional sign followed by decimal digits, where single underscores may stand
  between digits.
\<close>

definition is_space :: "char \<Rightarrow> bool" where
  "is_space c = (c \<in> set [CHR '' '', CHR 0x09, CHR 0x0A, CHR 0x0B, CHR 0x0C, CHR 0x0D])"

definition is_digit :: "char \<Rightarrow> bool" where
  "is_digit c = (c \<in> set ''0123456789'')"

definition strip :: "string \<Rightarrow> string" where
  "strip s = rev (dropWhile is_space (rev (dropWhile is_space s)))"

fun int_digits :: "bool \<Rightarrow> string \<Rightarrow> bool" where
  "int_digits after_digit [] = after_digit"
| "int_digits after_digit (c # cs) =
     (if c = CHR ''_'' then after_digit \<and> cs \<noteq> [] \<and> int_digits False cs
      else is_digit c \<and> int_digits True cs)"

definition int_parses :: "string \<Rightarrow> bool" where
  "int_parses s =
     (case strip s of
        [] \<Rightarrow> False
      | c # cs \<Rightarrow> if c = CHR ''+'' \<or> c = CHR ''-'' then int_digits False cs
                  else int_digits False (c # cs))"

section \<open>Data model\<close>

text \<open>
  A row of \<open>csv.DictReader\<close>, read after the column check has passed: a value for
  each required column. (Reading the CSV text is not part of the model.)
\<close>

record row =
  county :: string
  precinct :: string
  office :: string
  district :: string
  party :: string
  candidate :: string
  votes :: string

text \<open>A CSV file as the reader presents it: \<open>fieldnames\<close> is \<open>None\<close> for an empty file.\<close>

record csv_file =
  fieldnames :: "string list option"
  records :: "row list"

text \<open>The subclasses of \<open>Verifier\<close>.\<close>

datatype verifier_class =
    GeneralPrecinctVerifier
  | GeneralVerifier
  | PrimaryPrecinctVerifier
  | PrimaryVerifier
  | SpecialPrecinctVerifier

text \<open>The exceptions the program can raise.\<close>

datatype exn =
    FileNotFoundError string   \<comment> \<open>Can't find file at path ...\<close>
  | ValueError_extension string   \<comment> \<open>Filename does not end in .csv: ...\<close>
  | ValueError_unpack   \<comment> \<open>not enough (too many) values to unpack\<close>
  | AttributeError string   \<comment> \<open>no attribute of that name\<close>
  | TypeError   \<comment> \<open>'NoneType' object is not iterable\<close>

text \<open>The text of a finding: one constructor for each message of the source.\<close>

datatype message =
    Invalid_columns "string set"   \<comment> \<open>Invalid columns: ...\<close>
  | Missing_columns "string set"   \<comment> \<open>Missing columns: ...\<close>
  | County_mismatch   \<comment> \<open>County doesn't match filename\<close>
  | Use_title_case   \<comment> \<open>Use title case for the county\<close>
  | Invalid_office string   \<comment> \<open>Invalid office: ...\<close>
  | Requires_district string   \<comment> \<open>Office '...' requires a district\<close>
  | District_integer   \<comment> \<open>District must be an integer\<close>
  | Misspelled_pseudocandidate string   \<comment> \<open>Misspelled pseudocandidate: '...'\<close>
  | Party_missing   \<comment> \<open>Party missing\<close>
  | Primary_party   \<comment> \<open>Primary results must include a party for every row\<close>

text \<open>
  What the program prints: the banner \<open>==> path\<close> of \<open>pathSanityCheck\<close>, the
  \<open>ERROR: e\<close> line of the handler in \<open>__init__\<close>, and the lines of \<open>printError\<close>
  (\<open>ERROR: text\<close>, followed by the row when one is given).
\<close>

datatype printed =
    Banner string
  | Setup_error exn
  | Finding message "row option"

text \<open>An effect: what was printed, and the exception that ended it, if any.\<close>

type_synonym effect = "printed list \<times> exn option"

definition done_ok :: "printed list \<Rightarrow> effect" where
  "done_ok out = (out, None)"

definition raise :: "exn \<Rightarrow> effect" where
  "raise e = ([], Some e)"

text \<open>Sequential composition: the second statement runs only if the first did not raise.\<close>

definition and_then :: "effect \<Rightarrow> effect \<Rightarrow> effect" where
  "and_then s t = (case snd s of Some e \<Rightarrow> s | None \<Rightarrow> (fst s @ fst t, snd t))"

text \<open>The state of a \<open>Verifier\<close> object after \<open>__init__\<close>.\<close>

record verifier =
  cls :: verifier_class
  path :: string
  ready :: bool
  filename :: string
  filenameState :: string
  filenameCounty :: string

section \<open>The class constants\<close>

definition validColumns :: "string set" where
  "validColumns = {''county'', ''precinct'', ''office'', ''district'', ''party'',
                   ''candidate'', ''votes'', ''notes''}"

definition requiredColumns :: "string set" where
  "requiredColumns = {''county'', ''precinct'', ''office'', ''district'', ''party'',
                      ''candidate'', ''votes''}"

definition validOffices :: "string set" where
  "validOffices = {''President'', ''U.S. Senate'', ''U.S. House'', ''Governor'',
                   ''State Senate'', ''State House'', ''Attorney General'',
                   ''Secretary of State'', ''State Treasurer''}"

definition officesWithDistricts :: "string set" where
  "officesWithDistricts = {''U.S. House'', ''State Senate'', ''State House''}"

definition pseudocandidates :: "string set" where
  "pseudocandidates = {''Write-in'', ''Under Votes'', ''Over Votes'', ''Total''}"

text \<open>
  The loop of \<open>verifyCandidate\<close> iterates over this frozenset; the list fixes one
  order of iteration (the result does not depend on it, see \<open>match_loop_any\<close>).
\<close>

definition normalizedPseudocandidates :: "string list" where
  "normalizedPseudocandidates = [''writein'', ''undervotes'', ''overvotes'', ''total'']"

section \<open>The Verifier\<close>

subsection \<open>Construction\<close>

text \<open>
  \<open>Verifier.__new__\<close>, called on the class \<open>Verifier\<close> itself: the subclass to
  instantiate, chosen by substring tests on the basename. When no branch matches, the
  method falls off its end and returns \<open>None\<close>.
\<close>

definition new_Verifier :: "string \<Rightarrow> verifier_class option" where
  "new_Verifier p =
     (let filename = basename p in
      if sublist ''general'' filename then
        (if sublist ''precinct'' filename then Some GeneralPrecinctVerifier
         else Some GeneralVerifier)
      else if sublist ''primary'' filename then
        (if sublist ''precinct'' filename then Some PrimaryPrecinctVerifier
         else Some PrimaryVerifier)
      else if sublist ''special'' filename \<and> sublist ''precinct'' filename then
        Some SpecialPrecinctVerifier
      else None)"

text \<open>
  \<open>pathSanityCheck\<close>. The file system is a map from paths to the regular files
  that exist.
\<close>

definition pathSanityCheck :: "(string \<rightharpoonup> csv_file) \<Rightarrow> string \<Rightarrow> effect" where
  "pathSanityCheck fs p =
     (if fs p = None then raise (FileNotFoundError p)
      else if splitext_ext p \<noteq> ''.csv'' then raise (ValueError_extension p)
      else done_ok [Banner p])"

text \<open>
  What \<open>deriveStateCountyFromFilename\<close> returns: a pair of strings for a filename
  of five components, the string \<open>""\<close> otherwise.
\<close>

datatype derived = Pair string string | Str string

definition deriveStateCountyFromFilename :: "string \<Rightarrow> derived" where
  "deriveStateCountyFromFilename fname =
     (let components = split_dunder fname in
      if length components = 5
      then Pair (components ! 1) (title (replace_underscores (components ! 3)))
      else Str [])"

text \<open>
  The assignment \<open>self.filenameState, self.filenameCounty = ...\<close> unpacks its right
  side into exactly two values: a pair, or a string of two characters; anything else
  raises \<open>ValueError\<close>.
\<close>

fun unpack2 :: "derived \<Rightarrow> exn + string \<times> string" where
  "unpack2 (Pair s c) = Inr (s, c)"
| "unpack2 (Str [x, y]) = Inr ([x], [y])"
| "unpack2 (Str _) = Inl ValueError_unpack"

text \<open>
  \<open>Verifier.__init__\<close>: the object starts not ready; an exception in the
  \<open>try\<close> block is printed and leaves it so. Attributes that were not assigned are
  left empty here; the program never reads them on an object that is not ready.
\<close>

definition init_Verifier ::
  "(string \<rightharpoonup> csv_file) \<Rightarrow> verifier_class \<Rightarrow> string \<Rightarrow> printed list \<times> verifier" where
  "init_Verifier fs c p =
     (let self = \<lparr>cls = c, path = p, ready = False, filename = [],
                   filenameState = [], filenameCounty = []\<rparr> in
      case pathSanityCheck fs p of
        (out, Some e) \<Rightarrow> (out @ [Setup_error e], self)
      | (out, None) \<Rightarrow>
          (case unpack2 (deriveStateCountyFromFilename (basename p)) of
             Inl e \<Rightarrow> (out @ [Setup_error e], self\<lparr>filename := basename p\<rparr>)
           | Inr (st, co) \<Rightarrow>
               (out, self\<lparr>filename := basename p, filenameState := st,
                          filenameCounty := co, ready := True\<rparr>)))"

subsection \<open>Reporting\<close>

text \<open>\<open>printError(text, row=[])\<close>.\<close>

definition printError :: "message \<Rightarrow> row option \<Rightarrow> printed list" where
  "printError text r = [Finding text r]"

subsection \<open>The column check\<close>

text \<open>\<open>verifyColumns\<close>: what it prints and the boolean it returns.\<close>

definition verifyColumns :: "string list \<Rightarrow> printed list \<times> bool" where
  "verifyColumns columns =
     (let invalidColumns = set columns - validColumns;
          missingColumns = requiredColumns - set columns
      in ((if invalidColumns \<noteq> {} then printError (Invalid_columns invalidColumns) None else []) @
          (if missingColumns \<noteq> {} then printError (Missing_columns missingColumns) None else []),
          missingColumns = {}))"

subsection \<open>The row checks\<close>

definition verifyCounty :: "verifier \<Rightarrow> row \<Rightarrow> printed list" where
  "verifyCounty self r =
     (let normalisedCounty = title (county r) in
      (if normalisedCounty \<noteq> filenameCounty self
       then printError County_mismatch (Some r) else []) @
      (if county r \<noteq> normalisedCounty
       then printError Use_title_case (Some r) else []))"

text \<open>
  \<open>verifyOffice\<close> reports through \<open>self.self.printError\<close>; a \<open>Verifier\<close> has no
  attribute \<open>self\<close>, so the call raises \<open>AttributeError\<close> before anything is
  printed.
\<close>

definition verifyOffice :: "verifier \<Rightarrow> row \<Rightarrow> effect" where
  "verifyOffice self r =
     (if office r \<notin> validOffices then raise (AttributeError ''self'') else done_ok [])"

definition verifyInteger :: "string \<Rightarrow> bool" where
  "verifyInteger numberStr = int_parses numberStr"

definition verifyDistrict :: "verifier \<Rightarrow> row \<Rightarrow> printed list" where
  "verifyDistrict self r =
     (if office r \<in> officesWithDistricts then
        (if district r = [] then printError (Requires_district (office r)) (Some r)
         else if lower (district r) = ''x'' then
           (if filenameState self = ''ms'' then []
            else printError District_integer (Some r))
         else if \<not> verifyInteger (district r) then printError District_integer (Some r)
         else [])
      else [])"

text \<open>
  The party check: \<open>Verifier.verifyParty\<close>, overridden by
  \<open>PrimaryPrecinctVerifier\<close> only.
\<close>

definition verifyParty :: "verifier \<Rightarrow> row \<Rightarrow> printed list" where
  "verifyParty self r =
     (case cls self of
        PrimaryPrecinctVerifier \<Rightarrow>
          (if party r = [] then printError Primary_party (Some r) else [])
      | _ \<Rightarrow>
          (if candidate r \<notin> pseudocandidates \<and> party r = []
           then printError Party_missing (Some r) else []))"

subsection \<open>The matcher of difflib, as the candidate check calls it\<close>

text \<open>
  \<open>SequenceMatcher(None, a, b)\<close> indexes \<open>b\<close>: \<open>b2j\<close> maps an element to the
  increasing list of its positions in \<open>b\<close>. No junk predicate is given, so the set
  \<open>bjunk\<close> is empty; with \<open>autojunk\<close> left on, an element that occurs more than
  \<open>len(b) // 100 + 1\<close> times in a \<open>b\<close> of at least 200 elements is dropped from
  the index.
\<close>

definition b2j :: "string \<Rightarrow> char \<Rightarrow> nat list" where
  "b2j b elt =
     (let idxs = filter (\<lambda>j. b ! j = elt) [0..<length b]; n = length b in
      if 200 \<le> n \<and> n div 100 + 1 < length idxs then [] else idxs)"

definition isbjunk :: "char \<Rightarrow> bool" where
  "isbjunk elt = False"

text \<open>A \<open>Match(a, b, size)\<close>, and the running \<open>besti, bestj, bestsize\<close>.\<close>

type_synonym match = "nat \<times> nat \<times> nat"

definition match_size :: "match \<Rightarrow> nat" where
  "match_size m = snd (snd m)"

text \<open>
  The inner loop of \<open>find_longest_match\<close> over the positions \<open>j\<close> of \<open>a[i]\<close> in
  \<open>b\<close>: \<open>k = newj2len[j] = j2len.get(j-1, 0) + 1\<close>, and the best match moves to
  \<open>(i-k+1, j-k+1, k)\<close> when \<open>k\<close> is larger than its size. (The key \<open>-1\<close> is never
  in the dictionary; \<open>k \<le> i + 1\<close> and \<open>k \<le> j + 1\<close>, so the differences are taken
  after the increment.)
\<close>

fun scan_positions ::
  "(nat \<rightharpoonup> nat) \<Rightarrow> nat \<Rightarrow> nat \<Rightarrow> nat \<Rightarrow> nat list \<Rightarrow> (nat \<rightharpoonup> nat) \<times> match \<Rightarrow> (nat \<rightharpoonup> nat) \<times> match" where
  "scan_positions j2len i blo bhi [] st = st"
| "scan_positions j2len i blo bhi (j # js) (newj2len, (besti, bestj, bestsize)) =
     (if j < blo then scan_positions j2len i blo bhi js (newj2len, (besti, bestj, bestsize))
      else if bhi \<le> j then (newj2len, (besti, bestj, bestsize))
      else
        (let k = (if j = 0 then 0 else case j2len (j - 1) of None \<Rightarrow> 0 | Some v \<Rightarrow> v) + 1 in
         scan_positions j2len i blo bhi js
           (newj2len(j \<mapsto> k),
            if bestsize < k then (Suc i - k, Suc j - k, k) else (besti, bestj, bestsize))))"

text \<open>The outer loop \<open>for i in range(alo, ahi)\<close>; each pass starts a new \<open>newj2len\<close>.\<close>

definition scan_rows ::
  "string \<Rightarrow> string \<Rightarrow> nat \<Rightarrow> nat \<Rightarrow> nat \<Rightarrow> nat \<Rightarrow> (nat \<rightharpoonup> nat) \<times> match" where
  "scan_rows a b alo ahi blo bhi =
     fold (\<lambda>i (j2len, best). scan_positions j2len i blo bhi (b2j b (a ! i)) (Map.empty, best))
       [alo..<ahi] (Map.empty, (alo, blo, 0))"

text \<open>
  The four \<open>while\<close> loops that extend the best match at its ends: first by elements
  that are not junk (\<open>junk = False\<close>), then by junk elements (\<open>junk = True\<close>).
\<close>

function extend_left ::
  "string \<Rightarrow> string \<Rightarrow> nat \<Rightarrow> nat \<Rightarrow> bool \<Rightarrow> match \<Rightarrow> match" where
  "extend_left a b alo blo junk (besti, bestj, bestsize) =
     (if alo < besti \<and> blo < bestj \<and> isbjunk (b ! (bestj - 1)) = junk \<and>
         a ! (besti - 1) = b ! (bestj - 1)
      then extend_left a b alo blo junk (besti - 1, bestj - 1, bestsize + 1)
      else (besti, bestj, bestsize))"
  by pat_completeness auto
termination
  by (relation "measure (\<lambda>(a, b, alo, blo, junk, besti, bestj, bestsize). besti)") auto

function extend_right ::
  "string \<Rightarrow> string \<Rightarrow> nat \<Rightarrow> nat \<Rightarrow> bool \<Rightarrow> match \<Rightarrow> match" where
  "extend_right a b ahi bhi junk (besti, bestj, bestsize) =
     (if besti + bestsize < ahi \<and> bestj + bestsize < bhi \<and>
         isbjunk (b ! (bestj + bestsize)) = junk \<and>
         a ! (besti + bestsize) = b ! (bestj + bestsize)
      then extend_right a b ahi bhi junk (besti, bestj, bestsize + 1)
      else (besti, bestj, bestsize))"
  by pat_completeness auto
termination
  by (relation "measure (\<lambda>(a, b, ahi, bhi, junk, besti, bestj, bestsize). ahi - (besti + bestsize))")
    auto

declare extend_left.simps [simp del] extend_right.simps [simp del]

text \<open>\<open>s.find_longest_match(0, len(a), 0, len(b))\<close>.\<close>

definition find_longest_match :: "string \<Rightarrow> string \<Rightarrow> match" where
  "find_longest_match a b =
     (let alo = 0; ahi = length a; blo = 0; bhi = length b;
          best = snd (scan_rows a b alo ahi blo bhi);
          best = extend_left a b alo blo False best;
          best = extend_right a b ahi bhi False best;
          best = extend_left a b alo blo True best;
          best = extend_right a b ahi bhi True best
      in best)"

subsection \<open>The candidate check\<close>

text \<open>
  The loop over the normalized pseudocandidates: the first one with a match larger
  than 4 reports and ends the loop.
\<close>

fun match_loop :: "row \<Rightarrow> string \<Rightarrow> string list \<Rightarrow> printed list" where
  "match_loop r normalizedCandidate [] = []"
| "match_loop r normalizedCandidate (npc # rest) =
     (if 4 < match_size (find_longest_match normalizedCandidate npc)
      then printError (Misspelled_pseudocandidate (candidate r)) (Some r)
      else match_loop r normalizedCandidate rest)"

definition normalize :: "string \<Rightarrow> string" where
  "normalize cand = lower (filter is_alpha cand)"

definition verifyCandidate :: "verifier \<Rightarrow> row \<Rightarrow> printed list" where
  "verifyCandidate self r =
     (let normalizedCandidate = normalize (candidate r) in
      if candidate r \<notin> pseudocandidates then
        (if normalizedCandidate \<in> set normalizedPseudocandidates
         then printError (Misspelled_pseudocandidate (candidate r)) (Some r)
         else match_loop r normalizedCandidate normalizedPseudocandidates)
      else [])"

subsection \<open>Reading a file\<close>

text \<open>The body of the \<open>for row in self.reader\<close> loop.\<close>

definition verifyRow :: "verifier \<Rightarrow> row \<Rightarrow> effect" where
  "verifyRow self r =
     and_then (done_ok (verifyCounty self r))
    (and_then (verifyOffice self r)
    (and_then (done_ok (verifyDistrict self r))
    (and_then (done_ok (verifyCandidate self r))
              (done_ok (verifyParty self r)))))"

fun verifyRows :: "verifier \<Rightarrow> row list \<Rightarrow> effect" where
  "verifyRows self [] = done_ok []"
| "verifyRows self (r # rs) = and_then (verifyRow self r) (verifyRows self rs)"

text \<open>
  \<open>parseFileAtPath\<close>: the rows are read only if \<open>verifyColumns\<close> returns
  \<open>True\<close>. The header of an empty file is \<open>None\<close>, on which \<open>set(columns)\<close>
  raises.
\<close>

definition parseFileAtPath :: "(string \<rightharpoonup> csv_file) \<Rightarrow> verifier \<Rightarrow> string \<Rightarrow> effect" where
  "parseFileAtPath fs self p =
     (case fs p of
        None \<Rightarrow> raise (FileNotFoundError p)
      | Some csvfile \<Rightarrow>
          (case fieldnames csvfile of
             None \<Rightarrow> raise TypeError
           | Some columns \<Rightarrow>
               (if snd (verifyColumns columns)
                then and_then (done_ok (fst (verifyColumns columns)))
                       (verifyRows self (records csvfile))
                else done_ok (fst (verifyColumns columns)))))"

definition verify :: "(string \<rightharpoonup> csv_file) \<Rightarrow> verifier \<Rightarrow> effect" where
  "verify fs self = parseFileAtPath fs self (path self)"

subsection \<open>The main loop\<close>

text \<open>
  One pass of \<open>for path in args.paths\<close>. \<open>Verifier(path)\<close> is \<open>None\<close> when
  \<open>__new__\<close> chose no subclass (then \<open>__init__\<close> does not run), and reading
  \<open>verifier.ready\<close> on it raises \<open>AttributeError\<close>.
\<close>

definition main_step :: "(string \<rightharpoonup> csv_file) \<Rightarrow> string \<Rightarrow> effect" where
  "main_step fs p =
     (case new_Verifier p of
        None \<Rightarrow> raise (AttributeError ''ready'')
      | Some c \<Rightarrow>
          (let (out, verifier) = init_Verifier fs c p in
           if ready verifier \<and> \<not> sublist ''matrix'' (filename verifier)
           then and_then (done_ok out) (verify fs verifier)
           else done_ok out))"

fun main :: "(string \<rightharpoonup> csv_file) \<Rightarrow> string list \<Rightarrow> effect" where
  "main fs [] = done_ok []"
| "main fs (p # ps) = and_then (main_step fs p) (main fs ps)"

section \<open>Reference notions\<close>

text \<open>
  The spec's contract for the fuzzy token matcher: the length of the longest common
  contiguous substring of two strings.
\<close>

definition common_substrings :: "string \<Rightarrow> string \<Rightarrow> string set" where
  "common_substrings a b = {s. sublist s a \<and> sublist s b}"

definition lcs_length :: "string \<Rightarrow> string \<Rightarrow> nat" where
  "lcs_length a b = Max (length ` common_substrings a b)"

text \<open>
  What it is for an ASCII string to be read by \<open>int\<close> as an integer in base 10:
  between leading and trailing whitespace, an optional sign and a body of decimal digits
  and underscores that is not empty, neither starts nor ends with an underscore and has
  no two underscores in a row.
\<close>

definition digit_or_underscore :: "char \<Rightarrow> bool" where
  "digit_or_underscore c = (c \<in> set ''0123456789_'')"

definition digits_body :: "string \<Rightarrow> bool" where
  "digits_body body =
     (body \<noteq> [] \<and> list_all digit_or_underscore body \<and>
      hd body \<noteq> CHR ''_'' \<and> last body \<noteq> CHR ''_'' \<and> \<not> sublist ''__'' body)"

definition int_literal :: "string \<Rightarrow> bool" where
  "int_literal s =
     (\<exists>l sg body t.
        s = l @ sg @ body @ t \<and>
        list_all (\<lambda>c. c \<in> set [CHR '' '', CHR 0x09, CHR 0x0A, CHR 0x0B, CHR 0x0C, CHR 0x0D]) l \<and>
        list_all (\<lambda>c. c \<in> set [CHR '' '', CHR 0x09, CHR 0x0A, CHR 0x0B, CHR 0x0C, CHR 0x0D]) t \<and>
        (sg = [] \<or> sg = ''+'' \<or> sg = ''-'') \<and> digits_body body)"


text \<open>
  For the proofs: the length of the longest common suffix of \<open>a[:i+1]\<close> and
  \<open>b[:j+1]\<close>, the dictionary \<open>j2len\<close> after \<open>n\<close> passes of the outer loop, and
  what makes a triple a matching block of \<open>a\<close> and \<open>b\<close>.
\<close>

fun common_suffix :: "string \<Rightarrow> string \<Rightarrow> nat \<Rightarrow> nat \<Rightarrow> nat" where
  "common_suffix a b 0 j = (if a ! 0 = b ! j then 1 else 0)"
| "common_suffix a b (Suc i) 0 = (if a ! Suc i = b ! 0 then 1 else 0)"
| "common_suffix a b (Suc i) (Suc j) =
     (if a ! Suc i = b ! Suc j then Suc (common_suffix a b i j) else 0)"

definition j2len_after :: "string \<Rightarrow> string \<Rightarrow> nat \<Rightarrow> (nat \<rightharpoonup> nat)" where
  "j2len_after a b n =
     (case n of
        0 \<Rightarrow> Map.empty
      | Suc i \<Rightarrow> (\<lambda>j. if j < length b \<and> b ! j = a ! i then Some (common_suffix a b i j)
                       else None))"

definition matching_block :: "string \<Rightarrow> string \<Rightarrow> match \<Rightarrow> bool" where
  "matching_block a b m =
     (case m of (i, j, n) \<Rightarrow>
        i + n \<le> length a \<and> j + n \<le> length b \<and> (\<forall>t<n. a ! (i + t) = b ! (j + t)))"

section \<open>Properties\<close>

subsection \<open>Effects\<close>

lemma and_then_done_ok [simp]: "and_then (done_ok xs) t = (xs @ fst t, snd t)"
  by (simp add: and_then_def done_ok_def)

lemma and_then_raise [simp]: "and_then (raise e) t = raise e"
  by (simp add: and_then_def raise_def)

lemma and_then_raised: "snd s = Some e \<Longrightarrow> and_then s t = s"
  by (simp add: and_then_def)

subsection \<open>The office check and the row scan\<close>

lemma verifyOffice_raises:
  "office r \<notin> validOffices \<Longrightarrow> verifyOffice self r = raise (AttributeError ''self'')"
  by (simp add: verifyOffice_def)

lemma verifyOffice_valid:
  "office r \<in> validOffices \<Longrightarrow> verifyOffice self r = done_ok []"
  by (simp add: verifyOffice_def)

lemma verifyRow_invalid_office:
  "office r \<notin> validOffices \<Longrightarrow>
   verifyRow self r = (verifyCounty self r, Some (AttributeError ''self''))"
  by (simp add: verifyRow_def verifyOffice_raises) (simp add: raise_def)

lemma verifyRow_valid_office:
  "office r \<in> validOffices \<Longrightarrow>
   verifyRow self r =
     done_ok (verifyCounty self r @ verifyDistrict self r @ verifyCandidate self r @
              verifyParty self r)"
  by (simp add: verifyRow_def verifyOffice_valid) (simp add: done_ok_def)

text \<open>A row with an unrecognized office ends the scan: no later row is read.\<close>

lemma verifyRows_stop:
  "office r \<notin> validOffices \<Longrightarrow>
   verifyRows self (r # rs) = (verifyCounty self r, Some (AttributeError ''self''))"
  by (simp add: verifyRow_invalid_office and_then_raised)

text \<open>
  C1. The claim: a row whose office is not one of the nine recognized offices gets an
  "invalid office" finding through the error reporter, never an exception, and the scan
  goes on. The code reports through \<open>self.self.printError\<close>: on the file below,
  whose first row has the office \<open>Mayor\<close>, the program prints the banner only and
  ends with \<open>AttributeError\<close>; the second row, which would get a finding for its
  county, is never read.
\<close>

theorem invalid_office_raises:
  "main
     [''20161108__or__general__baker__precinct.csv'' \<mapsto>
        \<lparr>fieldnames = Some [''county'', ''precinct'', ''office'', ''district'', ''party'',
                             ''candidate'', ''votes''],
         records =
           [\<lparr>county = ''Baker'', precinct = ''1'', office = ''Mayor'', district = [],
             party = ''DEM'', candidate = ''Jane Doe'', votes = ''10''\<rparr>,
            \<lparr>county = ''baker'', precinct = ''1'', office = ''Governor'', district = [],
             party = ''DEM'', candidate = ''Jane Doe'', votes = ''10''\<rparr>]\<rparr>]
     [''20161108__or__general__baker__precinct.csv'']
   = ([Banner ''20161108__or__general__baker__precinct.csv''],
      Some (AttributeError ''self''))"
  by code_simp

subsection \<open>Filenames without five components\<close>

text \<open>Five components give the state and the title-cased county (of an ASCII filename).\<close>

lemma unpack2_five:
  "length (split_dunder fname) = 5 \<Longrightarrow>
   unpack2 (deriveStateCountyFromFilename fname) =
     Inr (split_dunder fname ! 1, title (replace_underscores (split_dunder fname ! 3)))"
  by (simp add: deriveStateCountyFromFilename_def Let_def)

lemma unpack2_other_count:
  "length (split_dunder fname) \<noteq> 5 \<Longrightarrow>
   unpack2 (deriveStateCountyFromFilename fname) = Inl ValueError_unpack"
  by (simp add: deriveStateCountyFromFilename_def Let_def)

text \<open>Such a file is announced, the failed assignment is printed, and it is not verified.\<close>

lemma main_step_other_count:
  assumes "new_Verifier p = Some c" and "fs p \<noteq> None" and "splitext_ext p = ''.csv''"
    and "length (split_dunder (basename p)) \<noteq> 5"
  shows "main_step fs p = done_ok [Banner p, Setup_error ValueError_unpack]"
  using assms
  by (auto simp: main_step_def init_Verifier_def pathSanityCheck_def unpack2_other_count
      done_ok_def Let_def)

text \<open>
  C2. The claim: a filename that does not split into five components yields an empty
  state and an empty county, and the file is still verified. The code returns the single
  string \<open>""\<close>, which the assignment in \<open>__init__\<close> cannot unpack into two
  values: the \<open>ValueError\<close> is caught there, the object stays not ready, and
  \<open>main\<close> does not verify the file. The filename below has four components; its row
  has an office that needs a district and has none, and gets no finding.
\<close>

theorem short_filename_not_verified:
  "deriveStateCountyFromFilename ''20161108__or__general__precinct.csv'' = Str [] \<and>
   main
     [''20161108__or__general__precinct.csv'' \<mapsto>
        \<lparr>fieldnames = Some [''county'', ''precinct'', ''office'', ''district'', ''party'',
                             ''candidate'', ''votes''],
         records =
           [\<lparr>county = ''Baker'', precinct = ''1'', office = ''State House'', district = [],
             party = ''DEM'', candidate = ''Jane Doe'', votes = ''10''\<rparr>]\<rparr>]
     [''20161108__or__general__precinct.csv'']
   = ([Banner ''20161108__or__general__precinct.csv'', Setup_error ValueError_unpack], None)"
  by code_simp

subsection \<open>The party check in the primary variants\<close>

lemma verifyParty_primary_precinct:
  "cls self = PrimaryPrecinctVerifier \<Longrightarrow> party r = [] \<Longrightarrow>
   verifyParty self r = [Finding Primary_party (Some r)]"
  by (simp add: verifyParty_def printError_def)

lemma verifyParty_default:
  "cls self \<noteq> PrimaryPrecinctVerifier \<Longrightarrow>
   verifyParty self r =
     (if candidate r \<notin> pseudocandidates \<and> party r = []
      then [Finding Party_missing (Some r)] else [])"
  by (cases "cls self") (simp_all add: verifyParty_def printError_def)

text \<open>
  C3. The claim: in a file of the PrimaryFile or PrimaryPrecinctFile variant an empty
  party is reported on every row, pseudocandidates included. Only
  \<open>PrimaryPrecinctVerifier\<close> overrides \<open>verifyParty\<close> (see
  \<open>verifyParty_primary_precinct\<close>); \<open>PrimaryVerifier\<close> inherits the default
  rule. The county-level primary file below has one row, for the pseudocandidate
  \<open>Total\<close> with an empty party: the program prints the banner and no finding.
\<close>

theorem primary_file_exempts_pseudocandidates:
  "new_Verifier ''20160517__or__primary__baker__county.csv'' = Some PrimaryVerifier \<and>
   main
     [''20160517__or__primary__baker__county.csv'' \<mapsto>
        \<lparr>fieldnames = Some [''county'', ''precinct'', ''office'', ''district'', ''party'',
                             ''candidate'', ''votes''],
         records =
           [\<lparr>county = ''Baker'', precinct = [], office = ''Governor'', district = [],
             party = [], candidate = ''Total'', votes = ''10''\<rparr>]\<rparr>]
     [''20160517__or__primary__baker__county.csv'']
   = ([Banner ''20160517__or__primary__baker__county.csv''], None)"
  by code_simp

subsection \<open>The choice of the subclass\<close>

lemma new_Verifier_general:
  "sublist ''general'' (basename p) \<Longrightarrow>
   new_Verifier p = Some (if sublist ''precinct'' (basename p) then GeneralPrecinctVerifier
                          else GeneralVerifier)"
  by (simp add: new_Verifier_def)

lemma new_Verifier_primary:
  "\<not> sublist ''general'' (basename p) \<Longrightarrow> sublist ''primary'' (basename p) \<Longrightarrow>
   new_Verifier p = Some (if sublist ''precinct'' (basename p) then PrimaryPrecinctVerifier
                          else PrimaryVerifier)"
  by (simp add: new_Verifier_def)

lemma new_Verifier_special:
  "\<not> sublist ''general'' (basename p) \<Longrightarrow> \<not> sublist ''primary'' (basename p) \<Longrightarrow>
   new_Verifier p = (if sublist ''special'' (basename p) \<and> sublist ''precinct'' (basename p)
                     then Some SpecialPrecinctVerifier else None)"
  by (auto simp: new_Verifier_def Let_def)

text \<open>When no subclass is chosen, the loop over the paths ends with an exception.\<close>

lemma main_unrecognized:
  "new_Verifier p = None \<Longrightarrow> main fs (p # ps) = raise (AttributeError ''ready'')"
  by (simp add: main_step_def)

text \<open>
  C4. The claim: the subclass is chosen by ordered substring tests (which
  \<open>new_Verifier_general\<close>, \<open>new_Verifier_primary\<close> and
  \<open>new_Verifier_special\<close> confirm), and a filename that matches no rule is skipped
  silently. For such a filename \<open>Verifier(path)\<close> is \<open>None\<close>, and \<open>main\<close> reads
  \<open>verifier.ready\<close> on it: the program ends with \<open>AttributeError\<close>, and the
  general-election file that follows in the list is not verified either.
\<close>

theorem unrecognized_filename_raises:
  "new_Verifier ''20160517__or__runoff__baker__precinct.csv'' = None \<and>
   main
     [''20160517__or__runoff__baker__precinct.csv'' \<mapsto>
        \<lparr>fieldnames = Some [''county'', ''precinct'', ''office'', ''district'', ''party'',
                             ''candidate'', ''votes''],
         records = []\<rparr>,
      ''20161108__or__general__baker__precinct.csv'' \<mapsto>
        \<lparr>fieldnames = Some [''county'', ''precinct'', ''office'', ''district'', ''party'',
                             ''candidate'', ''votes''],
         records = []\<rparr>]
     [''20160517__or__runoff__baker__precinct.csv'',
      ''20161108__or__general__baker__precinct.csv'']
   = ([], Some (AttributeError ''ready''))"
  by code_simp

subsection \<open>The column check as a gate\<close>

lemma verifyColumns_snd: "snd (verifyColumns columns) = (requiredColumns \<subseteq> set columns)"
  by (auto simp: verifyColumns_def Let_def)

lemma verifyColumns_no_rows:
  "\<forall>x \<in> set (fst (verifyColumns columns)). \<exists>m. x = Finding m None"
  by (auto simp: verifyColumns_def Let_def printError_def)

text \<open>
  C7. For the header \<open>columns\<close> of a file: columns outside the valid set are reported
  and do not change what \<open>verifyColumns\<close> returns, which is \<open>True\<close> exactly when
  no required column is missing, and then the rows are verified; a missing required
  column is reported and \<open>parseFileAtPath\<close> prints the findings of the column check
  only, none of which is about a row.
\<close>

theorem verifyColumns_gate:
  assumes "fs p = Some csvfile" and "fieldnames csvfile = Some columns"
  shows "(set columns - validColumns \<noteq> {} \<longrightarrow>
            Finding (Invalid_columns (set columns - validColumns)) None
              \<in> set (fst (verifyColumns columns))) \<and>
         snd (verifyColumns columns) = (requiredColumns \<subseteq> set columns) \<and>
         (requiredColumns \<subseteq> set columns \<longrightarrow>
            parseFileAtPath fs self p =
              and_then (done_ok (fst (verifyColumns columns)))
                (verifyRows self (records csvfile))) \<and>
         (\<not> requiredColumns \<subseteq> set columns \<longrightarrow>
            Finding (Missing_columns (requiredColumns - set columns)) None
              \<in> set (fst (verifyColumns columns)) \<and>
            parseFileAtPath fs self p = done_ok (fst (verifyColumns columns))) \<and>
         (\<forall>x \<in> set (fst (verifyColumns columns)). \<exists>m. x = Finding m None)"
proof (intro conjI)
  show "set columns - validColumns \<noteq> {} \<longrightarrow>
          Finding (Invalid_columns (set columns - validColumns)) None
            \<in> set (fst (verifyColumns columns))"
    by (simp add: verifyColumns_def Let_def printError_def)
  show ret: "snd (verifyColumns columns) = (requiredColumns \<subseteq> set columns)"
    by (rule verifyColumns_snd)
  show "requiredColumns \<subseteq> set columns \<longrightarrow>
          parseFileAtPath fs self p =
            and_then (done_ok (fst (verifyColumns columns)))
              (verifyRows self (records csvfile))"
    using assms ret by (simp add: parseFileAtPath_def)
  show "\<not> requiredColumns \<subseteq> set columns \<longrightarrow>
          Finding (Missing_columns (requiredColumns - set columns)) None
            \<in> set (fst (verifyColumns columns)) \<and>
          parseFileAtPath fs self p = done_ok (fst (verifyColumns columns))"
  proof
    assume miss: "\<not> requiredColumns \<subseteq> set columns"
    then have "requiredColumns - set columns \<noteq> {}" by blast
    then have "Finding (Missing_columns (requiredColumns - set columns)) None
            \<in> set (fst (verifyColumns columns))"
      by (simp add: verifyColumns_def Let_def printError_def)
    moreover have "parseFileAtPath fs self p = done_ok (fst (verifyColumns columns))"
      using assms ret miss by (simp add: parseFileAtPath_def)
    ultimately show "Finding (Missing_columns (requiredColumns - set columns)) None
            \<in> set (fst (verifyColumns columns)) \<and>
          parseFileAtPath fs self p = done_ok (fst (verifyColumns columns))" by simp
  qed
  show "\<forall>x \<in> set (fst (verifyColumns columns)). \<exists>m. x = Finding m None"
    by (rule verifyColumns_no_rows)
qed

text \<open>
  The header of the spec's scenario (no \<open>district\<close>), with a column \<open>ward\<close> added:
  both column findings are printed, and the row, whose county and office would be
  reported, is not read.
\<close>

theorem verifyColumns_gate_witness:
  "parseFileAtPath
     [''20161108__or__general__baker__precinct.csv'' \<mapsto>
        \<lparr>fieldnames = Some [''county'', ''precinct'', ''office'', ''party'',
                             ''candidate'', ''votes'', ''ward''],
         records = [\<lparr>county = ''baker'', precinct = ''1'', office = ''Mayor'',
                     district = [], party = [], candidate = ''Totals'',
                     votes = ''10''\<rparr>]\<rparr>]
     \<lparr>cls = GeneralPrecinctVerifier, path = ''20161108__or__general__baker__precinct.csv'',
      ready = True, filename = ''20161108__or__general__baker__precinct.csv'',
      filenameState = ''or'', filenameCounty = ''Baker''\<rparr>
     ''20161108__or__general__baker__precinct.csv''
   = ([Finding (Invalid_columns {''ward''}) None, Finding (Missing_columns {''district''}) None],
      None)"
proof -
  let ?cols = "[''county'', ''precinct'', ''office'', ''party'', ''candidate'', ''votes'',
                ''ward'']"
  let ?file = "\<lparr>fieldnames = Some ?cols,
                 records = [\<lparr>county = ''baker'', precinct = ''1'', office = ''Mayor'',
                             district = [], party = [], candidate = ''Totals'',
                             votes = ''10''\<rparr>]\<rparr>"
  let ?p = "''20161108__or__general__baker__precinct.csv''"
  let ?self = "\<lparr>cls = GeneralPrecinctVerifier, path = ?p, ready = True, filename = ?p,
                 filenameState = ''or'', filenameCounty = ''Baker''\<rparr>"
  have missing: "requiredColumns - set ?cols = {''district''}"
    by (auto simp: requiredColumns_def)
  have invalid: "set ?cols - validColumns = {''ward''}"
    by (auto simp: validColumns_def)
  have out: "fst (verifyColumns ?cols) =
      [Finding (Invalid_columns {''ward''}) None, Finding (Missing_columns {''district''}) None]"
    unfolding verifyColumns_def Let_def missing invalid by (simp add: printError_def)
  have "\<not> requiredColumns \<subseteq> set ?cols"
    using missing by blast
  with verifyColumns_gate [of "[?p \<mapsto> ?file]" ?p ?file ?cols ?self]
  have "parseFileAtPath [?p \<mapsto> ?file] ?self ?p = done_ok (fst (verifyColumns ?cols))"
    by simp
  then show ?thesis
    by (simp add: out done_ok_def)
qed

subsection \<open>The district check\<close>

lemma lower_char_x: "lower_char c = CHR ''x'' \<longleftrightarrow> c = CHR ''x'' \<or> c = CHR ''X''"
  by (auto simp: lower_char_def ascii_uppercase_def ascii_lowercase_def split: if_splits)

lemma lower_x: "lower s = ''x'' \<longleftrightarrow> s = ''x'' \<or> s = ''X''"
  by (cases s) (auto simp: lower_def lower_char_x)

text \<open>
  What \<open>verifyInteger\<close> accepts: exactly the integer literals of the reference
  definition.
\<close>

lemma is_digit_ok: "is_digit c \<longleftrightarrow> digit_or_underscore c \<and> c \<noteq> CHR ''_''"
  by (auto simp: is_digit_def digit_or_underscore_def)

lemma underscore_ok: "digit_or_underscore (CHR ''_'')"
  by (simp add: digit_or_underscore_def)

lemma sublist_dunder_Cons:
  "sublist ''__'' (c # cs) \<longleftrightarrow> (c = CHR ''_'' \<and> cs \<noteq> [] \<and> hd cs = CHR ''_'') \<or> sublist ''__'' cs"
  by (cases cs) (auto simp: sublist_Cons_right)

lemma int_digits_char:
  "(int_digits True body \<longleftrightarrow>
      list_all digit_or_underscore body \<and> (body \<noteq> [] \<longrightarrow> last body \<noteq> CHR ''_'') \<and>
      \<not> sublist ''__'' body) \<and>
   (int_digits False body \<longleftrightarrow>
      body \<noteq> [] \<and> hd body \<noteq> CHR ''_'' \<and> list_all digit_or_underscore body \<and>
      last body \<noteq> CHR ''_'' \<and> \<not> sublist ''__'' body)"
proof (induction body)
  case Nil
  then show ?case by simp
next
  case (Cons c cs)
  have sub: "sublist ''__'' (c # cs) \<longleftrightarrow>
      (c = CHR ''_'' \<and> cs \<noteq> [] \<and> hd cs = CHR ''_'') \<or> sublist ''__'' cs"
    by (rule sublist_dunder_Cons)
  show ?case
  proof (cases "c = CHR ''_''")
    case True
    have t: "int_digits True (c # cs) \<longleftrightarrow> cs \<noteq> [] \<and> int_digits False cs"
      and f: "\<not> int_digits False (c # cs)"
      using True by simp_all
    show ?thesis
      unfolding t using f Cons True underscore_ok
      by (cases "cs = []") (auto simp: sublist_dunder_Cons)
  next
    case False
    have t: "int_digits b (c # cs) \<longleftrightarrow> is_digit c \<and> int_digits True cs" for b
      using False by simp
    show ?thesis
      unfolding t using Cons False
      by (cases "cs = []") (auto simp: sublist_dunder_Cons is_digit_ok)
  qed
qed

lemma int_digits_body: "int_digits False body \<longleftrightarrow> digits_body body"
  using int_digits_char[of body] by (auto simp: digits_body_def)


lemma int_literal_alt:
  "int_literal s \<longleftrightarrow>
     (\<exists>l sg body t. s = l @ sg @ body @ t \<and> list_all is_space l \<and> list_all is_space t \<and>
        (sg = [] \<or> sg = ''+'' \<or> sg = ''-'') \<and> digits_body body)"
  unfolding int_literal_def is_space_def[abs_def] by (rule refl)

lemma strip_decomp: "\<exists>l t. s = l @ strip s @ t \<and> list_all is_space l \<and> list_all is_space t"
proof -
  let ?l = "takeWhile is_space s" and ?u = "dropWhile is_space s"
  let ?t = "rev (takeWhile is_space (rev ?u))"
  have "rev (takeWhile is_space (rev ?u) @ dropWhile is_space (rev ?u)) = ?u"
    by (simp only: takeWhile_dropWhile_id rev_rev_ident)
  then have u: "?u = strip s @ ?t"
    by (simp only: rev_append strip_def)
  have "s = ?l @ ?u" by simp
  with u have "s = ?l @ strip s @ ?t" by simp
  moreover have "list_all is_space ?l"
    by (simp add: list_all_iff) (meson set_takeWhileD)
  moreover have "list_all is_space ?t"
    by (simp add: list_all_iff) (meson set_takeWhileD)
  ultimately show ?thesis by blast
qed

lemma strip_unique:
  assumes "list_all is_space l" and "list_all is_space t" and "m \<noteq> []"
    and "\<not> is_space (hd m)" and "\<not> is_space (last m)"
  shows "strip (l @ m @ t) = m"
proof -
  have 1: "dropWhile is_space (l @ m @ t) = m @ t"
    using assms(1,3,4) by (cases m) (simp_all add: dropWhile_append3 dropWhile_append2 list_all_iff)
  have "rev (m @ t) = rev t @ rev m" by simp
  moreover have "dropWhile is_space (rev t @ rev m) = dropWhile is_space (rev m)"
    by (rule dropWhile_append2) (use assms(2) in \<open>simp add: list_all_iff\<close>)
  moreover have "dropWhile is_space (rev m) = rev m"
  proof (cases "rev m")
    case Nil
    with assms(3) show ?thesis by simp
  next
    case (Cons x xs)
    then have "x = last m" using hd_rev[of m] by simp
    with assms(5) have "\<not> is_space x" by simp
    then have "dropWhile is_space (x # xs) = x # xs" by simp
    then show ?thesis by (simp only: Cons)
  qed
  ultimately show ?thesis by (simp add: strip_def 1)
qed

lemma not_space_digit: "digit_or_underscore c \<Longrightarrow> \<not> is_space c"
  by (auto simp: digit_or_underscore_def is_space_def)

lemma not_space_sign: "\<not> is_space (CHR ''+'')" "\<not> is_space (CHR ''-'')"
  by (simp_all add: is_space_def)

lemma not_sign_digit: "digit_or_underscore c \<Longrightarrow> c \<noteq> CHR ''+'' \<and> c \<noteq> CHR ''-''"
  by (auto simp: digit_or_underscore_def)

lemma digits_body_ends:
  assumes "digits_body body"
  shows "body \<noteq> []" and "digit_or_underscore (hd body)" and "digit_or_underscore (last body)"
  using assms by (auto simp: digits_body_def list_all_iff)

lemma int_parses_literal: "int_parses s \<longleftrightarrow> int_literal s"
proof
  assume p: "int_parses s"
  obtain l t where s: "s = l @ strip s @ t" and l: "list_all is_space l" and t: "list_all is_space t"
    using strip_decomp by blast
  from p obtain c cs where m: "strip s = c # cs"
    by (cases "strip s") (simp_all add: int_parses_def)
  show "int_literal s"
  proof (cases "c = CHR ''+'' \<or> c = CHR ''-''")
    case True
    with p m have "int_digits False cs" by (simp add: int_parses_def del: int_digits.simps)
    then have "digits_body cs" by (simp only: int_digits_body)
    moreover have "s = l @ [c] @ cs @ t" using s m by simp
    ultimately show ?thesis
      unfolding int_literal_alt using l t True by blast
  next
    case False
    with p m have "int_digits False (c # cs)"
      by (simp add: int_parses_def del: int_digits.simps)
    then have "digits_body (c # cs)" by (simp only: int_digits_body)
    moreover have "s = l @ [] @ (c # cs) @ t" using s m by simp
    ultimately show ?thesis
      unfolding int_literal_alt using l t by blast
  qed
next
  assume "int_literal s"
  then obtain l sg body t where s: "s = l @ sg @ body @ t"
    and l: "list_all is_space l" and t: "list_all is_space t"
    and sg: "sg = [] \<or> sg = ''+'' \<or> sg = ''-''" and body: "digits_body body"
    unfolding int_literal_alt by blast
  note ends = digits_body_ends[OF body]
  have ne: "sg @ body \<noteq> []" using ends(1) by simp
  have h: "\<not> is_space (hd (sg @ body))"
    using sg ends(1,2) by (auto simp: not_space_digit not_space_sign)
  have e: "\<not> is_space (last (sg @ body))"
    using ends(1,3) by (simp add: not_space_digit)
  have "strip (l @ (sg @ body) @ t) = sg @ body"
    by (rule strip_unique[OF l t ne h e])
  then have m: "strip s = sg @ body" by (simp add: s)
  from sg show "int_parses s"
  proof (elim disjE)
    assume "sg = []"
    then obtain c cs where b: "body = c # cs" and m': "strip s = c # cs"
      using m ends(1) by (cases body) auto
    with ends(2) have "c \<noteq> CHR ''+'' \<and> c \<noteq> CHR ''-''" using not_sign_digit by auto
    moreover have "int_digits False (c # cs)" using body b by (simp only: int_digits_body)
    ultimately show ?thesis using m' by (simp add: int_parses_def del: int_digits.simps)
  next
    assume "sg = ''+''"
    moreover have "int_digits False body" using body by (simp only: int_digits_body)
    ultimately show ?thesis using m by (simp add: int_parses_def del: int_digits.simps)
  next
    assume "sg = ''-''"
    moreover have "int_digits False body" using body by (simp only: int_digits_body)
    ultimately show ?thesis using m by (simp add: int_parses_def del: int_digits.simps)
  qed
qed

text \<open>
  C8. For a row whose office is one of U.S. House, State Senate and State House: an
  empty district is reported as required; the district \<open>x\<close> or \<open>X\<close> passes when the
  state of the filename is \<open>ms\<close> and is reported as not an integer for any other
  state; any other district, of at most 4300 ASCII characters, is reported as not an
  integer exactly when it is no integer literal in base 10. (Interpreters since 3.10.7
  refuse to convert a string of more than 4300 digits.) For a row with any other office
  the check reports nothing, whatever the district.
\<close>

theorem verifyDistrict_cases:
  "(office r \<notin> officesWithDistricts \<longrightarrow> verifyDistrict self r = []) \<and>
   (office r \<in> officesWithDistricts \<and> district r = [] \<longrightarrow>
      verifyDistrict self r = [Finding (Requires_district (office r)) (Some r)]) \<and>
   (office r \<in> officesWithDistricts \<and> (district r = ''x'' \<or> district r = ''X'') \<longrightarrow>
      verifyDistrict self r =
        (if filenameState self = ''ms'' then [] else [Finding District_integer (Some r)])) \<and>
   (office r \<in> officesWithDistricts \<and> district r \<noteq> [] \<and> district r \<noteq> ''x'' \<and>
    district r \<noteq> ''X'' \<and> ascii_only (district r) \<and> length (district r) \<le> 4300 \<longrightarrow>
      verifyDistrict self r =
        (if int_literal (district r) then [] else [Finding District_integer (Some r)]))"
  by (auto simp: verifyDistrict_def lower_x printError_def verifyInteger_def int_parses_literal)

text \<open>
  The district \<open>X\<close> in a Mississippi file and in an Oregon file; the districts
  \<open>2nd\<close>, a \<open>7\<close> after the control character 0x1C (no whitespace for \<open>int\<close>)
  and \<open>+1_2\<close> between spaces; and an office without districts.
\<close>

theorem verifyDistrict_cases_witness:
  "verifyDistrict
     \<lparr>cls = GeneralPrecinctVerifier, path = ''20151103__ms__general__hinds__precinct.csv'',
      ready = True, filename = ''20151103__ms__general__hinds__precinct.csv'',
      filenameState = ''ms'', filenameCounty = ''Hinds''\<rparr>
     \<lparr>county = ''Hinds'', precinct = ''1'', office = ''State House'', district = ''X'',
      party = ''DEM'', candidate = ''Jane Doe'', votes = ''3''\<rparr> = [] \<and>
   verifyDistrict
     \<lparr>cls = GeneralPrecinctVerifier, path = ''20161108__or__general__baker__precinct.csv'',
      ready = True, filename = ''20161108__or__general__baker__precinct.csv'',
      filenameState = ''or'', filenameCounty = ''Baker''\<rparr>
     \<lparr>county = ''Baker'', precinct = ''1'', office = ''State House'', district = ''X'',
      party = ''DEM'', candidate = ''Jane Doe'', votes = ''3''\<rparr> =
     [Finding District_integer
        (Some \<lparr>county = ''Baker'', precinct = ''1'', office = ''State House'', district = ''X'',
               party = ''DEM'', candidate = ''Jane Doe'', votes = ''3''\<rparr>)] \<and>
   verifyDistrict
     \<lparr>cls = GeneralPrecinctVerifier, path = ''20161108__or__general__baker__precinct.csv'',
      ready = True, filename = ''20161108__or__general__baker__precinct.csv'',
      filenameState = ''or'', filenameCounty = ''Baker''\<rparr>
     \<lparr>county = ''Baker'', precinct = ''1'', office = ''U.S. House'', district = ''2nd'',
      party = ''DEM'', candidate = ''Jane Doe'', votes = ''3''\<rparr> =
     [Finding District_integer
        (Some \<lparr>county = ''Baker'', precinct = ''1'', office = ''U.S. House'', district = ''2nd'',
               party = ''DEM'', candidate = ''Jane Doe'', votes = ''3''\<rparr>)] \<and>
   verifyDistrict
     \<lparr>cls = GeneralPrecinctVerifier, path = ''20161108__or__general__baker__precinct.csv'',
      ready = True, filename = ''20161108__or__general__baker__precinct.csv'',
      filenameState = ''or'', filenameCounty = ''Baker''\<rparr>
     \<lparr>county = ''Baker'', precinct = ''1'', office = ''U.S. House'',
      district = [CHR 0x1C, CHR ''7''],
      party = ''DEM'', candidate = ''Jane Doe'', votes = ''3''\<rparr> =
     [Finding District_integer
        (Some \<lparr>county = ''Baker'', precinct = ''1'', office = ''U.S. House'',
               district = [CHR 0x1C, CHR ''7''],
               party = ''DEM'', candidate = ''Jane Doe'', votes = ''3''\<rparr>)] \<and>
   verifyDistrict
     \<lparr>cls = GeneralPrecinctVerifier, path = ''20161108__or__general__baker__precinct.csv'',
      ready = True, filename = ''20161108__or__general__baker__precinct.csv'',
      filenameState = ''or'', filenameCounty = ''Baker''\<rparr>
     \<lparr>county = ''Baker'', precinct = ''1'', office = ''U.S. House'', district = '' +1_2 '',
      party = ''DEM'', candidate = ''Jane Doe'', votes = ''3''\<rparr> = [] \<and>
   verifyDistrict
     \<lparr>cls = GeneralPrecinctVerifier, path = ''20161108__or__general__baker__precinct.csv'',
      ready = True, filename = ''20161108__or__general__baker__precinct.csv'',
      filenameState = ''or'', filenameCounty = ''Baker''\<rparr>
     \<lparr>county = ''Baker'', precinct = ''1'', office = ''Governor'', district = ''2nd'',
      party = ''DEM'', candidate = ''Jane Doe'', votes = ''3''\<rparr> = []"
proof -
  let ?ms = "\<lparr>cls = GeneralPrecinctVerifier,
               path = ''20151103__ms__general__hinds__precinct.csv'',
               ready = True, filename = ''20151103__ms__general__hinds__precinct.csv'',
               filenameState = ''ms'', filenameCounty = ''Hinds''\<rparr>"
  let ?or = "\<lparr>cls = GeneralPrecinctVerifier,
               path = ''20161108__or__general__baker__precinct.csv'',
               ready = True, filename = ''20161108__or__general__baker__precinct.csv'',
               filenameState = ''or'', filenameCounty = ''Baker''\<rparr>"
  let ?r1 = "\<lparr>county = ''Hinds'', precinct = ''1'', office = ''State House'', district = ''X'',
               party = ''DEM'', candidate = ''Jane Doe'', votes = ''3''\<rparr>"
  let ?r2 = "\<lparr>county = ''Baker'', precinct = ''1'', office = ''State House'', district = ''X'',
               party = ''DEM'', candidate = ''Jane Doe'', votes = ''3''\<rparr>"
  let ?r3 = "\<lparr>county = ''Baker'', precinct = ''1'', office = ''U.S. House'', district = ''2nd'',
               party = ''DEM'', candidate = ''Jane Doe'', votes = ''3''\<rparr>"
  let ?r4 = "\<lparr>county = ''Baker'', precinct = ''1'', office = ''U.S. House'',
               district = [CHR 0x1C, CHR ''7''],
               party = ''DEM'', candidate = ''Jane Doe'', votes = ''3''\<rparr>"
  let ?r5 = "\<lparr>county = ''Baker'', precinct = ''1'', office = ''U.S. House'',
               district = '' +1_2 '',
               party = ''DEM'', candidate = ''Jane Doe'', votes = ''3''\<rparr>"
  let ?r6 = "\<lparr>county = ''Baker'', precinct = ''1'', office = ''Governor'', district = ''2nd'',
               party = ''DEM'', candidate = ''Jane Doe'', votes = ''3''\<rparr>"
  have a: "ascii_only ''2nd''" "ascii_only [CHR 0x1C, CHR ''7'']" "ascii_only '' +1_2 ''"
    by (simp_all add: ascii_only_def is_ascii_def)
  have p: "\<not> int_parses ''2nd''" "\<not> int_parses [CHR 0x1C, CHR ''7'']" "int_parses '' +1_2 ''"
    by code_simp+
  have i: "\<not> int_literal ''2nd''" "\<not> int_literal [CHR 0x1C, CHR ''7'']" "int_literal '' +1_2 ''"
    using p by (simp_all only: int_parses_literal not_False_eq_True)
  have 1: "verifyDistrict ?ms ?r1 = []"
    using verifyDistrict_cases[where self = ?ms and r = ?r1]
    by (simp add: officesWithDistricts_def)
  have 2: "verifyDistrict ?or ?r2 = [Finding District_integer (Some ?r2)]"
    using verifyDistrict_cases[where self = ?or and r = ?r2]
    by (simp add: officesWithDistricts_def)
  have 3: "verifyDistrict ?or ?r3 = [Finding District_integer (Some ?r3)]"
    using verifyDistrict_cases[where self = ?or and r = ?r3] a(1) i(1)
    by (simp add: officesWithDistricts_def)
  have 4: "verifyDistrict ?or ?r4 = [Finding District_integer (Some ?r4)]"
    using verifyDistrict_cases[where self = ?or and r = ?r4] a(2) i(2)
    by (simp add: officesWithDistricts_def)
  have 5: "verifyDistrict ?or ?r5 = []"
    using verifyDistrict_cases[where self = ?or and r = ?r5] a(3) i(3)
    by (simp add: officesWithDistricts_def)
  have 6: "verifyDistrict ?or ?r6 = []"
    using verifyDistrict_cases[where self = ?or and r = ?r6]
    by (simp add: officesWithDistricts_def)
  from 1 2 3 4 5 6 show ?thesis by (intro conjI)
qed

subsection \<open>The county check\<close>







subsection \<open>The matcher computes the longest common substring\<close>

text \<open>Below 200 elements no element of \<open>b\<close> is dropped from the index.\<close>

lemma b2j_short:
  "length b < 200 \<Longrightarrow> b2j b c = filter (\<lambda>j. b ! j = c) [0..<length b]"
  by (simp add: b2j_def Let_def)

lemma set_b2j_short:
  "length b < 200 \<Longrightarrow> set (b2j b c) = {j. j < length b \<and> b ! j = c}"
  by (auto simp: b2j_short)

lemma common_suffix_0: "a ! i \<noteq> b ! j \<Longrightarrow> common_suffix a b i j = 0"
  by (cases i; cases j) simp_all

lemma common_suffix_pos: "a ! i = b ! j \<Longrightarrow> 0 < common_suffix a b i j"
  by (cases i; cases j) simp_all

lemma common_suffix_bounds:
  "common_suffix a b i j \<le> Suc i \<and> common_suffix a b i j \<le> Suc j"
  by (induction a b i j rule: common_suffix.induct) auto

lemma common_suffix_nth:
  "t < common_suffix a b i j \<Longrightarrow>
   a ! (Suc i - common_suffix a b i j + t) = b ! (Suc j - common_suffix a b i j + t)"
proof (induction a b i j arbitrary: t rule: common_suffix.induct)
  case (1 a b j)
  then show ?case by (auto split: if_splits)
next
  case (2 a b i)
  then show ?case by (auto split: if_splits)
next
  case (3 a b i j)
  show ?case
  proof (cases "a ! Suc i = b ! Suc j")
    case False
    with 3 show ?thesis by simp
  next
    case True
    let ?k = "common_suffix a b i j"
    have k: "?k \<le> Suc i" "?k \<le> Suc j" using common_suffix_bounds[of a b i j] by auto
    from True 3(2) have t: "t < Suc ?k" by simp
    show ?thesis
    proof (cases "t < ?k")
      case True
      from "3.IH"[OF \<open>a ! Suc i = b ! Suc j\<close> True] \<open>a ! Suc i = b ! Suc j\<close>
      show ?thesis by simp
    next
      case False
      with t have "t = ?k" by simp
      with k \<open>a ! Suc i = b ! Suc j\<close> show ?thesis by simp
    qed
  qed
qed

lemma common_suffix_block:
  assumes "i < length a" and "j < length b"
  shows "matching_block a b
           (Suc i - common_suffix a b i j, Suc j - common_suffix a b i j, common_suffix a b i j)"
  using assms common_suffix_bounds[of a b i j] common_suffix_nth[of _ a b i j]
  by (auto simp: matching_block_def)

lemma j2len_get:
  assumes "a ! i = b ! j" and "j < length b"
  shows "(if j = 0 then 0 else case j2len_after a b i (j - 1) of None \<Rightarrow> 0 | Some v \<Rightarrow> v) + 1
         = common_suffix a b i j"
  using assms
  by (cases i; cases j) (auto simp: j2len_after_def common_suffix_0)


lemma scan_positions_inv:
  assumes "\<forall>j\<in>set js. j < length b \<and> b ! j = a ! i" and "i < length a"
    and "matching_block a b best"
  shows "case scan_positions (j2len_after a b i) i 0 (length b) js (new, best) of
           (new', best') \<Rightarrow>
             matching_block a b best' \<and> match_size best \<le> match_size best' \<and>
             (\<forall>j\<in>set js. common_suffix a b i j \<le> match_size best') \<and>
             (\<forall>j. new' j = (if j \<in> set js then Some (common_suffix a b i j) else new j))"
  using assms
proof (induction js arbitrary: new best)
  case Nil
  then show ?case by simp
next
  case (Cons j js)
  obtain bi bj bs where best: "best = (bi, bj, bs)" by (cases best)
  let ?k = "common_suffix a b i j"
  define nb where "nb = (if bs < ?k then (Suc i - ?k, Suc j - ?k, ?k) else (bi, bj, bs))"
  from Cons.prems have j: "j < length b" "b ! j = a ! i" by auto
  then have k: "(if j = 0 then 0 else case j2len_after a b i (j - 1) of None \<Rightarrow> 0 | Some v \<Rightarrow> v) + 1
         = ?k"
    using j2len_get[of a i b j] by simp
  have step: "scan_positions (j2len_after a b i) i 0 (length b) (j # js) (new, best) =
     scan_positions (j2len_after a b i) i 0 (length b) js (new(j \<mapsto> ?k), nb)"
    using j k by (simp add: best nb_def Let_def del: One_nat_def)
  have blk: "matching_block a b nb"
    using Cons.prems(3) common_suffix_block[OF Cons.prems(2) j(1)] by (simp add: best nb_def)
  have grow: "match_size best \<le> match_size nb" "?k \<le> match_size nb"
    by (simp_all add: best nb_def match_size_def)
  have rest: "\<forall>j\<in>set js. j < length b \<and> b ! j = a ! i" using Cons.prems(1) by simp
  obtain new' best' where res:
    "scan_positions (j2len_after a b i) i 0 (length b) js (new(j \<mapsto> ?k), nb) = (new', best')"
    by (cases "scan_positions (j2len_after a b i) i 0 (length b) js (new(j \<mapsto> ?k), nb)")
  note raw = Cons.IH[OF rest Cons.prems(2) blk, of "new(j \<mapsto> ?k)", unfolded res prod.case]
  from raw
  have ih: "matching_block a b best'" "match_size nb \<le> match_size best'"
    "\<forall>j\<in>set js. common_suffix a b i j \<le> match_size best'"
    "\<forall>j'. new' j' = (if j' \<in> set js then Some (common_suffix a b i j') else (new(j \<mapsto> ?k)) j')"
    by simp_all
  have "match_size best \<le> match_size best'" using grow(1) ih(2) by simp
  moreover have "\<forall>j'\<in>set (j # js). common_suffix a b i j' \<le> match_size best'"
    using grow(2) ih(2,3) by auto
  moreover have "\<forall>j'. new' j' = (if j' \<in> set (j # js) then Some (common_suffix a b i j') else new j')"
    using ih(4) by auto
  ultimately show ?case
    unfolding step res using ih(1) by simp
qed


lemma matching_block_start: "matching_block a b (0, 0, 0)"
  by (simp add: matching_block_def)

lemma scan_rows_inv:
  assumes "length b < 200" and "n \<le> length a"
  shows "case scan_rows a b 0 n 0 (length b) of
           (j2len, best) \<Rightarrow>
             j2len = j2len_after a b n \<and> matching_block a b best \<and>
             (\<forall>i<n. \<forall>j<length b. common_suffix a b i j \<le> match_size best)"
  using assms(2)
proof (induction n)
  case 0
  then show ?case
    by (simp add: scan_rows_def j2len_after_def matching_block_start)
next
  case (Suc n)
  obtain j2len best where prev: "scan_rows a b 0 n 0 (length b) = (j2len, best)"
    by (cases "scan_rows a b 0 n 0 (length b)")
  from Suc have n: "n < length a" by simp
  from Suc.IH[unfolded prev prod.case] n
  have ih: "j2len = j2len_after a b n" "matching_block a b best"
    "\<forall>i<n. \<forall>j<length b. common_suffix a b i j \<le> match_size best"
    by simp_all
  have step: "scan_rows a b 0 (Suc n) 0 (length b) =
      scan_positions (j2len_after a b n) n 0 (length b) (b2j b (a ! n)) (Map.empty, best)"
    using prev ih(1) by (simp add: scan_rows_def)
  obtain new' best' where res:
    "scan_positions (j2len_after a b n) n 0 (length b) (b2j b (a ! n)) (Map.empty, best)
       = (new', best')"
    by (cases "scan_positions (j2len_after a b n) n 0 (length b) (b2j b (a ! n)) (Map.empty, best)")
  have js: "\<forall>j\<in>set (b2j b (a ! n)). j < length b \<and> b ! j = a ! n"
    using assms(1) by (simp add: set_b2j_short)
  note raw = scan_positions_inv[OF js n ih(2), of Map.empty, unfolded res prod.case]
  from raw have inv: "matching_block a b best'" "match_size best \<le> match_size best'"
    "\<forall>j\<in>set (b2j b (a ! n)). common_suffix a b n j \<le> match_size best'"
    "\<forall>j. new' j = (if j \<in> set (b2j b (a ! n)) then Some (common_suffix a b n j) else None)"
    by simp_all
  have "new' = j2len_after a b (Suc n)"
    using inv(4) assms(1) by (auto simp: j2len_after_def set_b2j_short)
  moreover have "\<forall>i<Suc n. \<forall>j<length b. common_suffix a b i j \<le> match_size best'"
  proof (intro allI impI)
    fix i j assume i: "i < Suc n" and j: "j < length b"
    show "common_suffix a b i j \<le> match_size best'"
    proof (cases "i = n")
      case False
      with i ih(3) j inv(2) show ?thesis by (meson less_SucE order_trans)
    next
      case True
      show ?thesis
      proof (cases "b ! j = a ! n")
        case True
        with j assms(1) have "j \<in> set (b2j b (a ! n))" by (simp add: set_b2j_short)
        with inv(3) \<open>i = n\<close> show ?thesis by simp
      next
        case False
        then have "common_suffix a b n j = 0" by (simp add: common_suffix_0)
        with \<open>i = n\<close> show ?thesis by simp
      qed
    qed
  qed
  ultimately show ?case
    unfolding step res using inv(1) by simp
qed

lemma extend_left_block:
  "matching_block a b m \<Longrightarrow>
   matching_block a b (extend_left a b 0 0 junk m) \<and>
   match_size m \<le> match_size (extend_left a b 0 0 junk m)"
proof (induction a b "0::nat" "0::nat" junk m rule: extend_left.induct)
  case (1 a b junk besti bestj bestsize)
  show ?case
  proof (cases "0 < besti \<and> 0 < bestj \<and> isbjunk (b ! (bestj - 1)) = junk \<and>
         a ! (besti - 1) = b ! (bestj - 1)")
    case False
    have "extend_left a b 0 0 junk (besti, bestj, bestsize) = (besti, bestj, bestsize)"
      by (subst extend_left.simps) (use False in auto)
    then show ?thesis using 1(2) by simp
  next
    case True
    have blk: "matching_block a b (besti - 1, bestj - 1, bestsize + 1)"
      unfolding matching_block_def prod.case
    proof (intro conjI allI impI)
      show "besti - 1 + (bestsize + 1) \<le> length a"
        using True 1(2) by (simp add: matching_block_def)
      show "bestj - 1 + (bestsize + 1) \<le> length b"
        using True 1(2) by (simp add: matching_block_def)
      fix t assume t: "t < bestsize + 1"
      show "a ! (besti - 1 + t) = b ! (bestj - 1 + t)"
      proof (cases t)
        case 0
        with True show ?thesis by simp
      next
        case (Suc t')
        with t have "t' < bestsize" by simp
        with 1(2) have "a ! (besti + t') = b ! (bestj + t')"
          by (simp add: matching_block_def)
        with Suc True show ?thesis by simp
      qed
    qed
    from "1.hyps"[OF True blk] True show ?thesis
      by (simp add: extend_left.simps[of a b 0 0 junk besti bestj bestsize] match_size_def)
  qed
qed

lemma extend_right_block:
  "matching_block a b m \<Longrightarrow>
   matching_block a b (extend_right a b (length a) (length b) junk m) \<and>
   match_size m \<le> match_size (extend_right a b (length a) (length b) junk m)"
proof (induction a b "length a" "length b" junk m rule: extend_right.induct)
  case (1 a b junk besti bestj bestsize)
  show ?case
  proof (cases "besti + bestsize < length a \<and> bestj + bestsize < length b \<and>
         isbjunk (b ! (bestj + bestsize)) = junk \<and>
         a ! (besti + bestsize) = b ! (bestj + bestsize)")
    case False
    have "extend_right a b (length a) (length b) junk (besti, bestj, bestsize)
            = (besti, bestj, bestsize)"
      by (subst extend_right.simps) (use False in auto)
    then show ?thesis using 1(2) by simp
  next
    case True
    have blk: "matching_block a b (besti, bestj, bestsize + 1)"
      using True 1(2) by (auto simp: matching_block_def less_Suc_eq)
    from "1.hyps"[OF True blk] True show ?thesis
      by (simp add: extend_right.simps[of a b "length a" "length b" junk besti bestj bestsize]
          match_size_def)
  qed
qed


lemma finite_common_substrings: "finite (common_substrings a b)"
proof -
  have "common_substrings a b \<subseteq> {s. set s \<subseteq> set a \<and> length s \<le> length a}"
    by (auto simp: common_substrings_def sublist_def)
  moreover have "finite {s. set s \<subseteq> set a \<and> length s \<le> length a}"
    by (rule finite_lists_length_le) simp
  ultimately show ?thesis by (rule finite_subset)
qed

lemma lcs_length_ge: "s \<in> common_substrings a b \<Longrightarrow> length s \<le> lcs_length a b"
  unfolding lcs_length_def by (rule Max_ge) (simp_all add: finite_common_substrings)

lemma lcs_length_le:
  assumes "\<And>s. s \<in> common_substrings a b \<Longrightarrow> length s \<le> n"
  shows "lcs_length a b \<le> n"
proof -
  have "[] \<in> common_substrings a b" by (simp add: common_substrings_def)
  then have "length ` common_substrings a b \<noteq> {}" by blast
  then show ?thesis
    unfolding lcs_length_def using assms by (simp add: finite_common_substrings)
qed

lemma matching_block_common:
  assumes "matching_block a b (i, j, n)"
  shows "take n (drop i a) \<in> common_substrings a b \<and> length (take n (drop i a)) = n"
proof -
  from assms have len: "i + n \<le> length a" "j + n \<le> length b"
    and eq: "\<forall>t<n. a ! (i + t) = b ! (j + t)"
    by (simp_all add: matching_block_def)
  have "take n (drop i a) = take n (drop j b)"
    using len eq by (intro nth_equalityI) simp_all
  moreover have "sublist (take n (drop i a)) a"
    by (meson sublist_drop sublist_order.order_trans sublist_take)
  moreover have "sublist (take n (drop j b)) b"
    by (meson sublist_drop sublist_order.order_trans sublist_take)
  ultimately show ?thesis using len by (simp add: common_substrings_def)
qed

lemma common_suffix_ge:
  "s \<noteq> [] \<Longrightarrow>
   length s \<le> common_suffix (ps @ s @ ss) (pt @ s @ st)
                 (length ps + length s - 1) (length pt + length s - 1)"
proof (induction s arbitrary: ss st rule: rev_induct)
  case Nil
  then show ?case by simp
next
  case (snoc x s)
  let ?a = "ps @ (s @ [x]) @ ss" and ?b = "pt @ (s @ [x]) @ st"
  show ?case
  proof (cases "s = []")
    case True
    have "?a ! length ps = ?b ! length pt" using True by (simp add: nth_append)
    then have "0 < common_suffix ?a ?b (length ps) (length pt)"
      by (rule common_suffix_pos)
    with True show ?thesis by simp
  next
    case False
    then obtain n where n: "length s = Suc n" by (cases s) auto
    have ih: "length s \<le> common_suffix ?a ?b (length ps + n) (length pt + n)"
      using snoc.IH[OF False, of "x # ss" "x # st"] n by simp
    have x: "?a ! Suc (length ps + n) = ?b ! Suc (length pt + n)"
      using n by (simp add: nth_append)
    have "common_suffix ?a ?b (Suc (length ps + n)) (Suc (length pt + n)) =
          Suc (common_suffix ?a ?b (length ps + n) (length pt + n))"
      using x by simp
    with ih n show ?thesis by simp
  qed
qed

lemma common_substring_bound:
  assumes "\<forall>i<length a. \<forall>j<length b. common_suffix a b i j \<le> n"
    and "s \<in> common_substrings a b"
  shows "length s \<le> n"
proof (cases "s = []")
  case True
  then show ?thesis by simp
next
  case False
  from assms(2) obtain ps ss pt st where a: "a = ps @ s @ ss" and b: "b = pt @ s @ st"
    by (auto simp: common_substrings_def sublist_def)
  from False have "0 < length s" by simp
  then have "length ps + length s - 1 < length a" "length pt + length s - 1 < length b"
    unfolding a b length_append by linarith+
  with assms(1) have "common_suffix a b (length ps + length s - 1) (length pt + length s - 1) \<le> n"
    by blast
  moreover have "length s \<le> common_suffix a b (length ps + length s - 1) (length pt + length s - 1)"
    unfolding a b by (rule common_suffix_ge[OF False])
  ultimately show ?thesis by simp
qed

lemma find_longest_match_lcs:
  assumes "length b < 200"
  shows "match_size (find_longest_match a b) = lcs_length a b"
proof -
  obtain j2len m0 where scan: "scan_rows a b 0 (length a) 0 (length b) = (j2len, m0)"
    by (cases "scan_rows a b 0 (length a) 0 (length b)")
  note raw = scan_rows_inv[OF assms order_refl, of a, unfolded scan prod.case]
  from raw have m0: "matching_block a b m0"
    and bound: "\<forall>i<length a. \<forall>j<length b. common_suffix a b i j \<le> match_size m0"
    by simp_all
  define m1 where "m1 = extend_left a b 0 0 False m0"
  define m2 where "m2 = extend_right a b (length a) (length b) False m1"
  define m3 where "m3 = extend_left a b 0 0 True m2"
  define m4 where "m4 = extend_right a b (length a) (length b) True m3"
  have m1: "matching_block a b m1" "match_size m0 \<le> match_size m1"
    using extend_left_block[OF m0, of False] by (simp_all add: m1_def)
  have m2: "matching_block a b m2" "match_size m1 \<le> match_size m2"
    using extend_right_block[OF m1(1), of False] by (simp_all add: m2_def)
  have m3: "matching_block a b m3" "match_size m2 \<le> match_size m3"
    using extend_left_block[OF m2(1), of True] by (simp_all add: m3_def)
  have m4: "matching_block a b m4" "match_size m3 \<le> match_size m4"
    using extend_right_block[OF m3(1), of True] by (simp_all add: m4_def)
  have res: "find_longest_match a b = m4"
    by (simp add: find_longest_match_def Let_def scan m1_def m2_def m3_def m4_def)
  obtain i j n where m4_eq: "m4 = (i, j, n)" by (cases m4)
  have "n \<le> lcs_length a b"
    using matching_block_common[of a b i j n] m4(1) lcs_length_ge[of "take n (drop i a)" a b]
    by (simp add: m4_eq)
  moreover have "lcs_length a b \<le> match_size m0"
    by (rule lcs_length_le) (rule common_substring_bound[OF bound])
  ultimately show ?thesis
    using m1(2) m2(2) m3(2) m4(2) by (simp add: res m4_eq match_size_def)
qed

text \<open>The loop over the reserved tokens reports when some token matches, whatever the order.\<close>

lemma tokens_short: "npc \<in> set normalizedPseudocandidates \<Longrightarrow> length npc < 200"
  by (auto simp: normalizedPseudocandidates_def)

lemma match_loop_any:
  "match_loop r nc tokens =
     (if \<exists>npc\<in>set tokens. 4 < match_size (find_longest_match nc npc)
      then [Finding (Misspelled_pseudocandidate (candidate r)) (Some r)] else [])"
  by (induction tokens) (auto simp: printError_def)

lemma match_loop_lcs:
  "match_loop r nc normalizedPseudocandidates =
     (if \<exists>npc\<in>set normalizedPseudocandidates. 4 < lcs_length nc npc
      then [Finding (Misspelled_pseudocandidate (candidate r)) (Some r)] else [])"
  unfolding match_loop_any by (simp add: find_longest_match_lcs tokens_short)

text \<open>
  C6. The fuzzy token matcher returns the length of the longest common contiguous
  substring of its two arguments: for every first argument and every second argument of
  fewer than 200 characters, the length from which difflib starts to leave frequent
  elements out of its index, and so for every reserved token, the only second arguments
  the candidate check passes. The normalized form of \<open>John Smith\<close> shares no more than
  4 consecutive characters with any reserved token, and the candidate check reports
  nothing for it.
\<close>

theorem fuzzy_matcher_lcs:
  "(length b < 200 \<longrightarrow> match_size (find_longest_match a b) = lcs_length a b) \<and>
   (\<forall>npc\<in>set normalizedPseudocandidates.
      match_size (find_longest_match a npc) = lcs_length a npc) \<and>
   normalize ''John Smith'' = ''johnsmith'' \<and>
   (\<forall>npc\<in>set normalizedPseudocandidates. lcs_length (normalize ''John Smith'') npc \<le> 4) \<and>
   verifyCandidate self (r\<lparr>candidate := ''John Smith''\<rparr>) = []"
proof (intro conjI)
  show "length b < 200 \<longrightarrow> match_size (find_longest_match a b) = lcs_length a b"
    by (simp add: find_longest_match_lcs)
  show "\<forall>npc\<in>set normalizedPseudocandidates.
      match_size (find_longest_match a npc) = lcs_length a npc"
    by (simp add: find_longest_match_lcs tokens_short)
  show n: "normalize ''John Smith'' = ''johnsmith''"
    by code_simp
  have m: "\<forall>npc\<in>set normalizedPseudocandidates.
             match_size (find_longest_match ''johnsmith'' npc) \<le> 4"
    by code_simp
  then show l: "\<forall>npc\<in>set normalizedPseudocandidates. lcs_length (normalize ''John Smith'') npc \<le> 4"
    by (simp add: n find_longest_match_lcs tokens_short)
  have "''John Smith'' \<notin> pseudocandidates" "''johnsmith'' \<notin> set normalizedPseudocandidates"
    by (simp_all add: pseudocandidates_def normalizedPseudocandidates_def)
  with l show "verifyCandidate self (r\<lparr>candidate := ''John Smith''\<rparr>) = []"
    by (auto simp: verifyCandidate_def Let_def match_loop_lcs n)
qed

theorem fuzzy_matcher_lcs_witness:
  "length ''undervotes'' < 200 \<and> lcs_length ''undervote'' ''undervotes'' = 9 \<and>
   lcs_length ''johnsmith'' ''writein'' = 2"
proof -
  have m: "match_size (find_longest_match ''undervote'' ''undervotes'') = 9"
    "match_size (find_longest_match ''johnsmith'' ''writein'') = 2"
    by code_simp+
  have short: "length ''undervotes'' < 200" "length ''writein'' < 200" by simp_all
  from fuzzy_matcher_lcs[where b = "''undervotes''" and a = "''undervote''"] short(1) m(1)
  have "lcs_length ''undervote'' ''undervotes'' = 9" by simp
  moreover
  from fuzzy_matcher_lcs[where b = "''writein''" and a = "''johnsmith''"] short(2) m(2)
  have "lcs_length ''johnsmith'' ''writein'' = 2" by simp
  ultimately show ?thesis by simp
qed

subsection \<open>The candidate check\<close>

text \<open>
  C5. The candidate check reports nothing when the candidate is one of the four reserved
  literals; otherwise it reports a misspelled pseudocandidate exactly when the normalized
  candidate is a normalized reserved token, or shares more than 4 consecutive characters
  with one; it reports at most one finding for a row.
\<close>

theorem verifyCandidate_spec:
  "verifyCandidate self r =
     (if candidate r \<in> pseudocandidates then []
      else if normalize (candidate r) \<in> set normalizedPseudocandidates \<or>
              (\<exists>npc\<in>set normalizedPseudocandidates.
                 4 < lcs_length (normalize (candidate r)) npc)
      then [Finding (Misspelled_pseudocandidate (candidate r)) (Some r)]
      else []) \<and>
   length (verifyCandidate self r) \<le> 1"
  by (simp add: verifyCandidate_def Let_def match_loop_lcs printError_def)

text \<open>\<open>Under Vote\<close> shares nine characters with \<open>undervotes\<close>; \<open>Total\<close> is a literal.\<close>

theorem verifyCandidate_spec_witness:
  "verifyCandidate
     \<lparr>cls = GeneralPrecinctVerifier, path = ''20161108__or__general__baker__precinct.csv'',
      ready = True, filename = ''20161108__or__general__baker__precinct.csv'',
      filenameState = ''or'', filenameCounty = ''Baker''\<rparr>
     \<lparr>county = ''Baker'', precinct = ''1'', office = ''Governor'', district = [],
      party = [], candidate = ''Under Vote'', votes = ''3''\<rparr>
   = [Finding (Misspelled_pseudocandidate ''Under Vote'')
        (Some \<lparr>county = ''Baker'', precinct = ''1'', office = ''Governor'', district = [],
               party = [], candidate = ''Under Vote'', votes = ''3''\<rparr>)] \<and>
   verifyCandidate
     \<lparr>cls = GeneralPrecinctVerifier, path = ''20161108__or__general__baker__precinct.csv'',
      ready = True, filename = ''20161108__or__general__baker__precinct.csv'',
      filenameState = ''or'', filenameCounty = ''Baker''\<rparr>
     \<lparr>county = ''Baker'', precinct = ''1'', office = ''Governor'', district = [],
      party = [], candidate = ''Total'', votes = ''3''\<rparr>
   = []"
proof -
  let ?p = "''20161108__or__general__baker__precinct.csv''"
  let ?self = "\<lparr>cls = GeneralPrecinctVerifier, path = ?p, ready = True, filename = ?p,
                 filenameState = ''or'', filenameCounty = ''Baker''\<rparr>"
  let ?r = "\<lparr>county = ''Baker'', precinct = ''1'', office = ''Governor'', district = [],
              party = [], candidate = ''Under Vote'', votes = ''3''\<rparr>"
  let ?t = "\<lparr>county = ''Baker'', precinct = ''1'', office = ''Governor'', district = [],
              party = [], candidate = ''Total'', votes = ''3''\<rparr>"
  have n: "normalize ''Under Vote'' = ''undervote''" by code_simp
  have "match_size (find_longest_match ''undervote'' ''undervotes'') = 9" by code_simp
  then have "lcs_length ''undervote'' ''undervotes'' = 9"
    by (simp add: find_longest_match_lcs)
  then have close: "\<exists>npc\<in>set normalizedPseudocandidates. 4 < lcs_length ''undervote'' npc"
    by (simp add: normalizedPseudocandidates_def)
  have lit: "''Under Vote'' \<notin> pseudocandidates" "''Total'' \<in> pseudocandidates"
    by (simp_all add: pseudocandidates_def)
  from verifyCandidate_spec[where self = ?self and r = ?r] n close lit(1)
  have "verifyCandidate ?self ?r = [Finding (Misspelled_pseudocandidate ''Under Vote'') (Some ?r)]"
    by simp
  moreover from verifyCandidate_spec[where self = ?self and r = ?t] lit(2)
  have "verifyCandidate ?self ?t = []" by simp
  ultimately show ?thesis by simp
qed

subsection \<open>Misspelled pseudocandidates without a party\<close>

lemma verifyCandidate_misspelled:
  assumes "candidate r \<notin> pseudocandidates"
    and "normalize (candidate r) \<in> set normalizedPseudocandidates \<or>
         (\<exists>npc\<in>set normalizedPseudocandidates. 4 < lcs_length (normalize (candidate r)) npc)"
  shows "verifyCandidate self r = [Finding (Misspelled_pseudocandidate (candidate r)) (Some r)]"
  using assms by (auto simp: verifyCandidate_def Let_def match_loop_lcs printError_def)

text \<open>
  C10. In every variant but \<open>PrimaryPrecinctVerifier\<close>, a row whose candidate is a
  misspelled pseudocandidate (not one of the four literals, but with a normalized form
  that is a reserved token or close to one) and whose party is empty gets both findings:
  the candidate check reports the misspelling, the party check reports the missing
  party, and both are printed for the row when its office is a recognized one.
\<close>

theorem misspelled_pseudocandidate_party:
  assumes "cls self \<noteq> PrimaryPrecinctVerifier"
    and "candidate r \<notin> pseudocandidates"
    and "normalize (candidate r) \<in> set normalizedPseudocandidates \<or>
         (\<exists>npc\<in>set normalizedPseudocandidates. 4 < lcs_length (normalize (candidate r)) npc)"
    and "party r = []"
  shows "verifyCandidate self r = [Finding (Misspelled_pseudocandidate (candidate r)) (Some r)] \<and>
         verifyParty self r = [Finding Party_missing (Some r)] \<and>
         (office r \<in> validOffices \<longrightarrow>
            verifyRow self r =
              done_ok (verifyCounty self r @ verifyDistrict self r @
                       [Finding (Misspelled_pseudocandidate (candidate r)) (Some r),
                        Finding Party_missing (Some r)]))"
proof -
  have c: "verifyCandidate self r = [Finding (Misspelled_pseudocandidate (candidate r)) (Some r)]"
    using assms(2,3) by (rule verifyCandidate_misspelled)
  have p: "verifyParty self r = [Finding Party_missing (Some r)]"
    using assms(1,2,4) by (simp add: verifyParty_default)
  show ?thesis
    by (simp add: c p verifyRow_valid_office)
qed

theorem misspelled_pseudocandidate_party_witness:
  "verifyRow
     \<lparr>cls = GeneralPrecinctVerifier, path = ''20161108__or__general__baker__precinct.csv'',
      ready = True, filename = ''20161108__or__general__baker__precinct.csv'',
      filenameState = ''or'', filenameCounty = ''Baker''\<rparr>
     \<lparr>county = ''Baker'', precinct = ''1'', office = ''Governor'', district = [],
      party = [], candidate = ''WriteIn'', votes = ''3''\<rparr>
   = ([Finding (Misspelled_pseudocandidate ''WriteIn'')
         (Some \<lparr>county = ''Baker'', precinct = ''1'', office = ''Governor'', district = [],
                party = [], candidate = ''WriteIn'', votes = ''3''\<rparr>),
       Finding Party_missing
         (Some \<lparr>county = ''Baker'', precinct = ''1'', office = ''Governor'', district = [],
                party = [], candidate = ''WriteIn'', votes = ''3''\<rparr>)],
      None)"
proof -
  let ?p = "''20161108__or__general__baker__precinct.csv''"
  let ?self = "\<lparr>cls = GeneralPrecinctVerifier, path = ?p, ready = True, filename = ?p,
                 filenameState = ''or'', filenameCounty = ''Baker''\<rparr>"
  let ?r = "\<lparr>county = ''Baker'', precinct = ''1'', office = ''Governor'', district = [],
              party = [], candidate = ''WriteIn'', votes = ''3''\<rparr>"
  have n: "normalize ''WriteIn'' = ''writein''" by code_simp
  have h1: "cls ?self \<noteq> PrimaryPrecinctVerifier" by simp
  have h2: "candidate ?r \<notin> pseudocandidates" by (simp add: pseudocandidates_def)
  have h3: "normalize (candidate ?r) \<in> set normalizedPseudocandidates \<or>
         (\<exists>npc\<in>set normalizedPseudocandidates. 4 < lcs_length (normalize (candidate ?r)) npc)"
    by (simp add: n normalizedPseudocandidates_def)
  have h4: "party ?r = []" by simp
  have o: "office ?r \<in> validOffices" by (simp add: validOffices_def)
  have c: "verifyCounty ?self ?r = []" by code_simp
  have d: "verifyDistrict ?self ?r = []" by code_simp
  from misspelled_pseudocandidate_party[OF h1 h2 h3 h4] o
  have "verifyRow ?self ?r =
          done_ok (verifyCounty ?self ?r @ verifyDistrict ?self ?r @
                   [Finding (Misspelled_pseudocandidate (candidate ?r)) (Some ?r),
                    Finding Party_missing (Some ?r)])"
    by blast
  then show ?thesis by (simp add: c d done_ok_def)
qed

end
